theory Spec2Isabelle
  imports Complex_Main
begin

section \<open>Errors\<close>

text \<open>
  Every way a call can fail is a value. \<open>AssertionError\<close> is what a failed Python
  \<^verbatim>\<open>assert\<close> raises: it carries no message in \<^verbatim>\<open>elekta.py\<close>. The other kinds are the
  error kinds of the library the sources call into.
\<close>

datatype error =
    AssertionError
  | InvalidRangeError
  | InvalidGeometryError string
  | DimensionMismatchError
  | NotImplementedError
  | UnsupportedGeometryError

section \<open>Partitions\<close>

text \<open>
  A partition is either uniform (the corner points and the number of cells per axis it
  was built from) or non-uniform in one dimension (the sample points and the cell
  boundaries around them). Python floats are modelled by \<^typ>\<open>real\<close>.
\<close>

datatype partition =
    Uniform_part "real list" "real list" "int list"
  | Nonuniform_part "real list" "real list"

fun strictly_increasing :: "real list \<Rightarrow> bool" where
  "strictly_increasing (x # y # zs) = (x < y \<and> strictly_increasing (y # zs))"
| "strictly_increasing _ = True"

fun midpoints :: "real list \<Rightarrow> real list" where
  "midpoints (x # y # zs) = (x + y) / 2 # midpoints (y # zs)"
| "midpoints _ = []"

definition lower_outer :: "real list \<Rightarrow> real" where
  "lower_outer pts = hd pts - (hd (tl pts) - hd pts) / 2"

definition upper_outer :: "real list \<Rightarrow> real" where
  "upper_outer pts = last pts + (last pts - last (butlast pts)) / 2"

definition cell_boundaries :: "real list \<Rightarrow> real list" where
  "cell_boundaries pts = lower_outer pts # midpoints pts @ [upper_outer pts]"

text \<open>
  Modelled from the spec: \<^verbatim>\<open>odl.nonuniform_partition\<close> is called by \<^verbatim>\<open>elekta.py\<close> and by the
  test fixtures, its body is not among the sources. The spec: it accepts a strictly
  increasing sequence, places the boundaries at the midpoints between consecutive
  samples, extrapolates the outer boundaries by half the adjacent spacing, and fails
  with \<open>InvalidRangeError\<close> on fewer than 2 points or non-increasing input.
\<close>

definition nonuniform_partition :: "real list \<Rightarrow> error + partition" where
  "nonuniform_partition pts =
     (if length pts < 2 \<or> \<not> strictly_increasing pts then Inl InvalidRangeError
      else Inr (Nonuniform_part pts (cell_boundaries pts)))"

fun all_less :: "real list \<Rightarrow> real list \<Rightarrow> bool" where
  "all_less (x # xs) (y # ys) = (x < y \<and> all_less xs ys)"
| "all_less _ _ = True"

text \<open>
  Modelled from the spec: \<^verbatim>\<open>odl.uniform_partition\<close> is not among the sources. The spec: it
  fails with \<open>InvalidRangeError\<close> when \<open>min \<ge> max\<close> or \<open>count \<le> 0\<close>; an N-D partition is
  the product of its axes. Corner points and shape of different lengths do not describe
  a box and are rejected the same way. The partition keeps the corner points it is
  given: they are its outermost boundaries.
\<close>

definition uniform_partition ::
    "real list \<Rightarrow> real list \<Rightarrow> int list \<Rightarrow> error + partition" where
  "uniform_partition mn mx shp =
     (if length mn \<noteq> length mx \<or> length mn \<noteq> length shp then Inl InvalidRangeError
      else if \<not> all_less mn mx then Inl InvalidRangeError
      else if \<not> list_all (\<lambda>n. 0 < n) shp then Inl InvalidRangeError
      else Inr (Uniform_part mn mx shp))"

fun part_min_pt :: "partition \<Rightarrow> real list" where
  "part_min_pt (Uniform_part mn mx shp) = mn"
| "part_min_pt (Nonuniform_part pts bs) = take 1 bs"

fun part_max_pt :: "partition \<Rightarrow> real list" where
  "part_max_pt (Uniform_part mn mx shp) = mx"
| "part_max_pt (Nonuniform_part pts bs) = take 1 (rev bs)"

fun part_shape :: "partition \<Rightarrow> int list" where
  "part_shape (Uniform_part mn mx shp) = shp"
| "part_shape (Nonuniform_part pts bs) = [int (length pts)]"

text \<open>The extent of a partition: per axis, the maximal boundary minus the minimal one.\<close>

definition extent :: "partition \<Rightarrow> real list" where
  "extent p = map2 (\<lambda>hi lo. hi - lo) (part_max_pt p) (part_min_pt p)"

section \<open>Geometries\<close>

text \<open>
  The geometry family is a tagged variant: each kind carries its angle partition, its
  detector partition and the parameters of its own. The arguments are in the order of
  the Python constructors: \<^verbatim>\<open>FanFlatGeometry(apart, dpart, src_radius, det_radius)\<close>,
  \<^verbatim>\<open>CircularConeFlatGeometry(apart, dpart, src_radius, det_radius, axis)\<close>,
  \<^verbatim>\<open>HelicalConeFlatGeometry(apart, dpart, pitch, src_radius, det_radius)\<close>.
\<close>

datatype geometry =
    Parallel2d partition partition
  | Parallel3dAxis partition partition
  | FanFlat partition partition real real
  | CircularConeFlat partition partition real real "real list"
  | HelicalConeFlat partition partition real real real

fun geom_ndim :: "geometry \<Rightarrow> nat" where
  "geom_ndim (Parallel2d ap dp) = 2"
| "geom_ndim (Parallel3dAxis ap dp) = 3"
| "geom_ndim (FanFlat ap dp src det) = 2"
| "geom_ndim (CircularConeFlat ap dp src det ax) = 3"
| "geom_ndim (HelicalConeFlat ap dp pitch src det) = 3"

fun geom_apart :: "geometry \<Rightarrow> partition" where
  "geom_apart (Parallel2d ap dp) = ap"
| "geom_apart (Parallel3dAxis ap dp) = ap"
| "geom_apart (FanFlat ap dp src det) = ap"
| "geom_apart (CircularConeFlat ap dp src det ax) = ap"
| "geom_apart (HelicalConeFlat ap dp pitch src det) = ap"

fun geom_dpart :: "geometry \<Rightarrow> partition" where
  "geom_dpart (Parallel2d ap dp) = dp"
| "geom_dpart (Parallel3dAxis ap dp) = dp"
| "geom_dpart (FanFlat ap dp src det) = dp"
| "geom_dpart (CircularConeFlat ap dp src det ax) = dp"
| "geom_dpart (HelicalConeFlat ap dp pitch src det) = dp"

fun geom_src_radius :: "geometry \<Rightarrow> real option" where
  "geom_src_radius (FanFlat ap dp src det) = Some src"
| "geom_src_radius (CircularConeFlat ap dp src det ax) = Some src"
| "geom_src_radius (HelicalConeFlat ap dp pitch src det) = Some src"
| "geom_src_radius _ = None"

fun geom_det_radius :: "geometry \<Rightarrow> real option" where
  "geom_det_radius (FanFlat ap dp src det) = Some det"
| "geom_det_radius (CircularConeFlat ap dp src det ax) = Some det"
| "geom_det_radius (HelicalConeFlat ap dp pitch src det) = Some det"
| "geom_det_radius _ = None"

text \<open>
  Modelled from the spec: the constructors of the divergent-beam geometries are not
  among the sources. The spec: construction validates \<open>src_radius > 0\<close> for divergent
  kinds, the detector radius of a divergent kind is positive, and violating positivity
  fails with \<open>InvalidGeometryError\<close>; the error names the offending parameter.
\<close>

definition check_radii :: "real \<Rightarrow> real \<Rightarrow> error option" where
  "check_radii src det =
     (if src \<le> 0 then Some (InvalidGeometryError ''src_radius'')
      else if det \<le> 0 then Some (InvalidGeometryError ''det_radius'')
      else None)"

definition FanFlatGeometry ::
    "partition \<Rightarrow> partition \<Rightarrow> real \<Rightarrow> real \<Rightarrow> error + geometry" where
  "FanFlatGeometry ap dp src det =
     (case check_radii src det of
        Some e \<Rightarrow> Inl e
      | None \<Rightarrow> Inr (FanFlat ap dp src det))"

text \<open>
  Modelled from the spec: besides the radii, the axis of a 3D kind must be a 3-vector
  that can be normalised, so not the zero vector.
\<close>

definition CircularConeFlatGeometry ::
    "partition \<Rightarrow> partition \<Rightarrow> real \<Rightarrow> real \<Rightarrow> real list \<Rightarrow> error + geometry" where
  "CircularConeFlatGeometry ap dp src det ax =
     (case check_radii src det of
        Some e \<Rightarrow> Inl e
      | None \<Rightarrow>
          if length ax \<noteq> 3 \<or> list_all (\<lambda>a. a = 0) ax
          then Inl (InvalidGeometryError ''axis'')
          else Inr (CircularConeFlat ap dp src det ax))"

text \<open>Modelled from the spec: the pitch of the helical kind must be nonzero.\<close>

definition HelicalConeFlatGeometry ::
    "partition \<Rightarrow> partition \<Rightarrow> real \<Rightarrow> real \<Rightarrow> real \<Rightarrow> error + geometry" where
  "HelicalConeFlatGeometry ap dp pitch src det =
     (case check_radii src det of
        Some e \<Rightarrow> Inl e
      | None \<Rightarrow>
          if pitch = 0 then Inl (InvalidGeometryError ''pitch'')
          else Inr (HelicalConeFlat ap dp pitch src det))"

section \<open>Discretized spaces\<close>

datatype dtype = Float32 | Float64 | Complex64 | Complex128

record discr_space =
  partition :: partition
  dtype :: dtype

text \<open>
  Modelled from the spec: \<^verbatim>\<open>odl.uniform_discr\<close> is not among the sources. A discretized
  space has minimum and maximum corner points, a shape of positive sample counts and an
  element type; the tests read its grid as \<^verbatim>\<open>space.partition\<close>. The corner points and the
  shape are validated as those of a uniform partition are.
\<close>

definition uniform_discr ::
    "real list \<Rightarrow> real list \<Rightarrow> int list \<Rightarrow> dtype \<Rightarrow> error + discr_space" where
  "uniform_discr mn mx shp dt =
     (case uniform_partition mn mx shp of
        Inl e \<Rightarrow> Inl e
      | Inr p \<Rightarrow> Inr \<lparr>partition = p, dtype = dt\<rparr>)"

section \<open>Double precision\<close>

text \<open>
  A Python float is an IEEE 754 binary64 number, and every arithmetic operation on
  floats returns the exact result rounded to the nearest binary64 number, ties to the
  even significand. The finite binary64 numbers are modelled as the real numbers they
  denote, and \<open>binary64\<close> is this rounding: \<open>expo\<close> is the exponent of the binade of a
  positive number, no less than \<open>-1022\<close>, where the subnormal numbers begin; the spacing
  of the binary64 numbers in that binade is \<open>2\<close> to the power \<open>expo - 52\<close>; and the number is
  rounded to the nearest multiple of the spacing. Infinities and NaN are not modelled:
  what is said about \<open>binary64\<close> is said for operations that do not overflow.
\<close>

fun expo_dn :: "nat \<Rightarrow> real \<Rightarrow> int" where
  "expo_dn 0 x = 0"
| "expo_dn (Suc k) x = (if 1 \<le> x then 0 else expo_dn k (2 * x) - 1)"

function expo_up :: "real \<Rightarrow> int" where
  "expo_up x = (if x < 2 then 0 else expo_up (x / 2) + 1)"
  by pat_completeness auto
termination
proof (relation "measure (\<lambda>x. nat \<lfloor>x\<rfloor>)")
  show "wf (measure (\<lambda>x::real. nat \<lfloor>x\<rfloor>))" by simp
next
  fix x :: real
  assume large: "\<not> x < 2"
  then have "x / 2 \<le> x - 1" by simp
  then have "\<lfloor>x / 2\<rfloor> \<le> \<lfloor>x - 1\<rfloor>" by (rule floor_mono)
  moreover have "2 \<le> \<lfloor>x\<rfloor>" using large by (simp add: le_floor_iff)
  ultimately show "(x / 2, x) \<in> measure (\<lambda>x. nat \<lfloor>x\<rfloor>)" by simp
qed

declare expo_up.simps [simp del]

definition expo :: "real \<Rightarrow> int" where
  "expo x = (if 1 \<le> x then expo_up x else expo_dn 1022 x)"

definition round_even :: "real \<Rightarrow> int" where
  "round_even r =
     (let f = \<lfloor>r\<rfloor>; d = r - of_int f
      in if d < 1 / 2 then f else if 1 / 2 < d then f + 1 else if even f then f else f + 1)"

definition binary64 :: "real \<Rightarrow> real" where
  "binary64 x =
     (if x = 0 then 0
      else (let q = 2 powi (expo \<bar>x\<bar> - 52) in of_int (round_even (x / q)) * q))"

text \<open>Half the spacing of the subnormal numbers: the most that rounding can change them.\<close>

definition tiny :: real where
  "tiny = 1 / 2 ^ 1075"

text \<open>
  Modelled from the spec: the extent of a partition, computed in the arithmetic \<open>fl\<close>:
  per axis the maximal boundary minus the minimal one, rounded by \<open>fl\<close>.
\<close>

definition extent_in :: "(real \<Rightarrow> real) \<Rightarrow> partition \<Rightarrow> real list" where
  "extent_in fl p = map2 (\<lambda>hi lo. fl (hi - lo)) (part_max_pt p) (part_min_pt p)"

section \<open>The Elekta Icon presets (\<^verbatim>\<open>odl/contrib/tomo/elekta.py\<close>)\<close>

text \<open>
  \<^verbatim>\<open>elekta_icon_geometry(sad, sdd, piercing_point, angles, detector_shape)\<close>. The three
  \<^verbatim>\<open>assert\<close> statements come first, in the order of the source; a failed one raises
  \<open>AssertionError\<close> with no message. \<^verbatim>\<open>piercing_point\<close> and \<^verbatim>\<open>angles\<close> are flat sequences of
  numbers, so \<^verbatim>\<open>piercing_point.size\<close> is the length of the list. The partitions and the
  geometry are built in the order of the source, and an error of any of them is the
  result of the call.

  The body is written once, over the arithmetic \<open>fl\<close> that rounds the result of every
  operation: \<open>fl\<close> stands where the source converts an argument to float
  (\<^verbatim>\<open>float(sad)\<close>, \<^verbatim>\<open>np.array(..., dtype=float)\<close>), where it writes a decimal literal, and
  around each product, sum and difference. Negation and comparison are exact.
\<close>

definition pixel_size :: real where
  "pixel_size = 0.368"

definition det_shape_mm :: "real list" where
  "det_shape_mm = [287.04, 264.96]"

definition elekta_icon_geometry_in ::
    "(real \<Rightarrow> real) \<Rightarrow> real \<Rightarrow> real \<Rightarrow> real list \<Rightarrow> real list \<Rightarrow> int list \<Rightarrow>
     error + geometry" where
  "elekta_icon_geometry_in fl sad_arg sdd_arg piercing_point_arg angles_arg detector_shape =
     (let sad = fl sad_arg in
      if \<not> 0 < sad then Inl AssertionError
      else
        (let sdd = fl sdd_arg in
         if \<not> sad < sdd then Inl AssertionError
         else
           (let piercing_point = map fl piercing_point_arg in
            if length piercing_point \<noteq> 2 then Inl AssertionError
            else
              (let angles = map fl angles_arg in
               case nonuniform_partition angles of
                 Inl e \<Rightarrow> Inl e
               | Inr angle_partition \<Rightarrow>
                   (let piercing_point_mm = map (\<lambda>c. fl (fl pixel_size * c)) piercing_point;
                        det_min_pt = map uminus piercing_point_mm;
                        det_max_pt =
                          map2 (\<lambda>a b. fl (a + b)) det_min_pt (map fl det_shape_mm)
                    in case uniform_partition det_min_pt det_max_pt detector_shape of
                         Inl e \<Rightarrow> Inl e
                       | Inr detector_partition \<Rightarrow>
                           CircularConeFlatGeometry angle_partition detector_partition
                             sad (fl (sdd - sad)) [0, 0, 1])))))"

text \<open>
  The geometry in exact arithmetic, where nothing is rounded, and the geometry as the
  program computes it, in double precision.
\<close>

definition elekta_icon_geometry ::
    "real \<Rightarrow> real \<Rightarrow> real list \<Rightarrow> real list \<Rightarrow> int list \<Rightarrow> error + geometry" where
  "elekta_icon_geometry = elekta_icon_geometry_in (\<lambda>x. x)"

definition elekta_icon_geometry_binary64 ::
    "real \<Rightarrow> real \<Rightarrow> real list \<Rightarrow> real list \<Rightarrow> int list \<Rightarrow> error + geometry" where
  "elekta_icon_geometry_binary64 = elekta_icon_geometry_in binary64"

text \<open>
  The extent of the detector partition of a geometry that was built, in double
  precision; no extent when the construction failed.
\<close>

fun detector_extent :: "error + geometry \<Rightarrow> real list" where
  "detector_extent (Inr g) = extent_in binary64 (geom_dpart g)"
| "detector_extent (Inl e) = []"

text \<open>
  \<^verbatim>\<open>elekta_icon_space(shape, **kwargs)\<close>. The keyword arguments are an association list
  of names and values; the body of the source never reads them.
\<close>

definition elekta_icon_space ::
    "int list \<Rightarrow> (string \<times> 'v) list \<Rightarrow> error + discr_space" where
  "elekta_icon_space shp kwargs =
     uniform_discr [-112, -112, 0] [112, 112, 224] shp Float32"

text \<open>
  Whether an error names a parameter of the geometry, as an \<open>InvalidGeometryError\<close> does.
\<close>

fun fails_with_invalid_geometry :: "error + 'a \<Rightarrow> bool" where
  "fails_with_invalid_geometry (Inl (InvalidGeometryError p)) = True"
| "fails_with_invalid_geometry _ = False"

section \<open>Ray transforms\<close>

datatype backend = Astra_cpu | Astra_cuda | Skimage

record ray_transform =
  domain :: discr_space
  geometry :: geometry
  impl :: backend

text \<open>
  Modelled from the spec: the class \<^verbatim>\<open>RayTransform\<close> is not among the sources, only its
  tests are. The spec: the dimension of the volume space must match the dimension of the
  geometry, and a mismatch is rejected when the operator is constructed.
\<close>

definition RayTransform ::
    "discr_space \<Rightarrow> geometry \<Rightarrow> backend \<Rightarrow> error + ray_transform" where
  "RayTransform space geom backend =
     (if length (part_shape (partition space)) \<noteq> geom_ndim geom
      then Inl DimensionMismatchError
      else Inr \<lparr>domain = space, geometry = geom, impl = backend\<rparr>)"

text \<open>
  Modelled from the spec: which geometry a backend supports. The table is the list of
  valid projectors of \<^verbatim>\<open>ray_trafo_test.py\<close>: the CPU backend has the 2D kinds (parallel and
  fan), the GPU backend has all five kinds, the image-library fallback has 2D parallel
  only.
\<close>

fun backend_supports :: "backend \<Rightarrow> geometry \<Rightarrow> bool" where
  "backend_supports Astra_cuda g = True"
| "backend_supports Astra_cpu g = (geom_ndim g = 2)"
| "backend_supports Skimage (Parallel2d ap dp) = True"
| "backend_supports Skimage g = False"

definition cell_sides :: "partition \<Rightarrow> real list" where
  "cell_sides p = map2 (\<lambda>e n. e / of_int n) (extent p) (part_shape p)"

fun isotropic :: "real list \<Rightarrow> bool" where
  "isotropic [] = True"
| "isotropic (c # cs) = list_all (\<lambda>d. d = c) cs"

text \<open>
  Modelled from the spec: whether a backend can compute a transform; the check is in
  the backends, which are not among the sources. The geometry must be in the table of
  the backend. Besides, \<^verbatim>\<open>test_anisotropic_voxels\<close> expects a 2D transform over voxels
  with unequal sides to raise \<open>NotImplementedError\<close> on the backend it gets by default,
  which is one of the two projector-library backends.
\<close>

definition supported :: "ray_transform \<Rightarrow> bool" where
  "supported rt =
     (backend_supports (impl rt) (geometry rt) \<and>
      (geom_ndim (geometry rt) = 2 \<and> impl rt \<noteq> Skimage \<longrightarrow>
         isotropic (cell_sides (partition (domain rt)))))"

definition elem_count :: "partition \<Rightarrow> nat" where
  "elem_count p = prod_list (map nat (part_shape p))"

definition range_count :: "geometry \<Rightarrow> nat" where
  "range_count g = elem_count (geom_apart g) * elem_count (geom_dpart g)"

text \<open>
  The projector library is outside the repository: its forward projection and its
  backprojection are parameters, functions of the backend, the geometry, the volume grid
  and the data.
\<close>

type_synonym projector = "backend \<Rightarrow> geometry \<Rightarrow> partition \<Rightarrow> real list \<Rightarrow> real list"

text \<open>
  Modelled from the spec: the real-valued forward call and adjoint call. An input that
  is not of the operator's domain is a \<open>DimensionMismatchError\<close>; an unsupported
  combination of geometry, dimension and backend is a \<open>NotImplementedError\<close>, raised by
  the call; otherwise the backend computes the result.
\<close>

definition call_real :: "projector \<Rightarrow> ray_transform \<Rightarrow> real list \<Rightarrow> error + real list" where
  "call_real fwd rt x =
     (if length x \<noteq> elem_count (partition (domain rt)) then Inl DimensionMismatchError
      else if \<not> supported rt then Inl NotImplementedError
      else Inr (fwd (impl rt) (geometry rt) (partition (domain rt)) x))"

definition adjoint_real :: "projector \<Rightarrow> ray_transform \<Rightarrow> real list \<Rightarrow> error + real list" where
  "adjoint_real bwd rt y =
     (if length y \<noteq> range_count (geometry rt) then Inl DimensionMismatchError
      else if \<not> supported rt then Inl NotImplementedError
      else Inr (bwd (impl rt) (geometry rt) (partition (domain rt)) y))"

fun is_real_dtype :: "dtype \<Rightarrow> bool" where
  "is_real_dtype Float32 = True"
| "is_real_dtype Float64 = True"
| "is_real_dtype Complex64 = False"
| "is_real_dtype Complex128 = False"

fun real_dtype :: "dtype \<Rightarrow> dtype" where
  "real_dtype Complex64 = Float32"
| "real_dtype Complex128 = Float64"
| "real_dtype dt = dt"

text \<open>The real space paired with a space: same grid, real element type.\<close>

definition real_space :: "discr_space \<Rightarrow> discr_space" where
  "real_space s = s\<lparr>dtype := real_dtype (dtype s)\<rparr>"

datatype element = Real_elem "real list" | Complex_elem "complex list"

text \<open>
  Modelled from the spec: the call of a ray transform. Over a real domain it is the real
  call. Over a complex domain the input is decomposed into its real and its imaginary
  part, the real transform is applied to each, and the two results are recombined. An
  element of the wrong kind is not of the domain.
\<close>

definition split_call ::
    "(real list \<Rightarrow> error + real list) \<Rightarrow> complex list \<Rightarrow> error + element" where
  "split_call f z =
     (case f (map Re z) of
        Inl e \<Rightarrow> Inl e
      | Inr re \<Rightarrow>
          (case f (map Im z) of
             Inl e \<Rightarrow> Inl e
           | Inr im \<Rightarrow> Inr (Complex_elem (map2 Complex re im))))"

definition dispatch ::
    "(real list \<Rightarrow> error + real list) \<Rightarrow> ray_transform \<Rightarrow> element \<Rightarrow> error + element" where
  "dispatch f rt v =
     (case v of
        Real_elem x \<Rightarrow>
          if is_real_dtype (dtype (domain rt))
          then (case f x of Inl e \<Rightarrow> Inl e | Inr r \<Rightarrow> Inr (Real_elem r))
          else Inl DimensionMismatchError
      | Complex_elem z \<Rightarrow>
          if is_real_dtype (dtype (domain rt)) then Inl DimensionMismatchError
          else split_call f z)"

definition rt_apply :: "projector \<Rightarrow> ray_transform \<Rightarrow> element \<Rightarrow> error + element" where
  "rt_apply fwd rt v = dispatch (call_real fwd rt) rt v"

definition rt_adjoint :: "projector \<Rightarrow> ray_transform \<Rightarrow> element \<Rightarrow> error + element" where
  "rt_adjoint bwd rt w = dispatch (adjoint_real bwd rt) rt w"

text \<open>
  What the claim about complex input compares with: the real transform applied to the
  real part and to the imaginary part, and the two results put together as
  \<open>re + i \<cdot> im\<close>.
\<close>

fun recombine :: "error + element \<Rightarrow> error + element \<Rightarrow> error + element" where
  "recombine (Inl e) r = Inl e"
| "recombine (Inr a) (Inl e) = Inl e"
| "recombine (Inr (Real_elem a)) (Inr (Real_elem b)) = Inr (Complex_elem (map2 Complex a b))"
| "recombine (Inr a) (Inr b) = Inl DimensionMismatchError"

text \<open>Whether an element lies in the domain, or in the range, of a ray transform.\<close>

fun elem_size :: "element \<Rightarrow> nat" where
  "elem_size (Real_elem x) = length x"
| "elem_size (Complex_elem z) = length z"

fun elem_is_real :: "element \<Rightarrow> bool" where
  "elem_is_real (Real_elem x) = True"
| "elem_is_real (Complex_elem z) = False"

definition in_domain :: "ray_transform \<Rightarrow> element \<Rightarrow> bool" where
  "in_domain rt v =
     (elem_is_real v = is_real_dtype (dtype (domain rt)) \<and>
      elem_size v = elem_count (partition (domain rt)))"

definition in_range :: "ray_transform \<Rightarrow> element \<Rightarrow> bool" where
  "in_range rt w =
     (elem_is_real w = is_real_dtype (dtype (domain rt)) \<and>
      elem_size w = range_count (geometry rt))"

section \<open>The Elekta Icon reconstruction (\<^verbatim>\<open>odl/contrib/tomo/elekta.py\<close>)\<close>

text \<open>
  Modelled from the spec: the product \<^verbatim>\<open>A * B\<close> of an operator with what acts on its input.
  The weighting multiplies projection data before the filtered backprojection sees it, so
  the right factor is applied first.
\<close>

definition operator_mul :: "('b \<Rightarrow> 'c) \<Rightarrow> ('a \<Rightarrow> 'b) \<Rightarrow> 'a \<Rightarrow> 'c" where
  "operator_mul A B = (\<lambda>x. A (B x))"

text \<open>
  \<^verbatim>\<open>elekta_icon_reconstruction(ray_transform, parker_weighting)\<close>. The builders
  \<^verbatim>\<open>odl.tomo.fbp_op\<close> and \<^verbatim>\<open>odl.tomo.parker_weighting\<close> are not among the sources: they are
  parameters. \<open>fbp_op\<close> takes the ray transform, the padding flag, the name of the filter
  window and the frequency scaling; either builder may fail. An operator is a function
  from its input to its output.
\<close>

definition elekta_icon_reconstruction ::
    "(ray_transform \<Rightarrow> bool \<Rightarrow> string \<Rightarrow> real \<Rightarrow> error + ('p \<Rightarrow> 'v)) \<Rightarrow>
     (ray_transform \<Rightarrow> error + ('p \<Rightarrow> 'p)) \<Rightarrow>
     ray_transform \<Rightarrow> bool \<Rightarrow> error + ('p \<Rightarrow> 'v)" where
  "elekta_icon_reconstruction fbp_op parker ray_transform parker_weighting =
     (case fbp_op ray_transform False ''Hann'' 0.6 of
        Inl e \<Rightarrow> Inl e
      | Inr fbp \<Rightarrow>
          if parker_weighting
          then (case parker ray_transform of
                  Inl e \<Rightarrow> Inl e
                | Inr w \<Rightarrow> Inr (operator_mul fbp w))
          else Inr fbp)"

section \<open>Fixtures\<close>

text \<open>
  The 2D parallel transform of \<^verbatim>\<open>test_anisotropic_voxels\<close>: the volume \<open>[-1, 1]\<^sup>2\<close> in
  \<open>10 \<times> 5\<close> voxels, 100 angles over \<open>[0, \<pi>]\<close> and 100 detector cells over \<open>[-30, 30]\<close>. Then a
  small complex-valued transform, and stand-ins for the backend and for the two builders
  of the reconstruction, to evaluate the operators on.
\<close>

definition par2d_anisotropic :: "backend \<Rightarrow> ray_transform" where
  "par2d_anisotropic backend =
     \<lparr>domain = \<lparr>partition = Uniform_part [-1, -1] [1, 1] [10, 5], dtype = Float32\<rparr>,
      geometry = Parallel2d (Uniform_part [0] [pi] [100]) (Uniform_part [-30] [30] [100]),
      impl = backend\<rparr>"

definition par2d_complex :: ray_transform where
  "par2d_complex =
     \<lparr>domain = \<lparr>partition = Uniform_part [-1, -1] [1, 1] [2, 2], dtype = Complex64\<rparr>,
      geometry = Parallel2d (Uniform_part [0] [pi] [2]) (Uniform_part [-2] [2] [2]),
      impl = Astra_cpu\<rparr>"

definition doubling :: projector where
  "doubling backend geom grid x = map (\<lambda>t. 2 * t) x"

definition scaling_fbp ::
    "ray_transform \<Rightarrow> bool \<Rightarrow> string \<Rightarrow> real \<Rightarrow> error + (real list \<Rightarrow> real list)" where
  "scaling_fbp rt padding filter_type frequency_scaling =
     (if filter_type = ''Hann'' \<and> \<not> padding
      then Inr (map (\<lambda>t. frequency_scaling * t))
      else Inl UnsupportedGeometryError)"

definition halving :: "ray_transform \<Rightarrow> error + (real list \<Rightarrow> real list)" where
  "halving rt = Inr (map (\<lambda>t. t / 2))"

section \<open>Non-uniform partitions: the boundaries\<close>

lemma strictly_increasing_nth:
  "strictly_increasing xs \<Longrightarrow> Suc i < length xs \<Longrightarrow> xs ! i < xs ! Suc i"
proof (induction xs arbitrary: i rule: strictly_increasing.induct)
  case (1 x y zs)
  then show ?case by (cases i) auto
qed auto

lemma strictly_increasing_sorted_wrt:
  "strictly_increasing xs = sorted_wrt (\<lambda>a b. a < b) xs"
proof (induction xs rule: strictly_increasing.induct)
  case (1 x y zs)
  then show ?case by (auto intro: less_trans)
qed auto

lemma length_midpoints: "length (midpoints xs) = length xs - 1"
  by (induction xs rule: midpoints.induct) auto

lemma midpoints_nth:
  "Suc i < length xs \<Longrightarrow> midpoints xs ! i = (xs ! i + xs ! Suc i) / 2"
proof (induction xs arbitrary: i rule: midpoints.induct)
  case (1 x y zs)
  then show ?case by (cases i) auto
qed auto

lemma length_cell_boundaries:
  "2 \<le> length pts \<Longrightarrow> length (cell_boundaries pts) = length pts + 1"
  by (simp add: cell_boundaries_def length_midpoints)

lemma lower_outer_nth:
  "2 \<le> length pts \<Longrightarrow> lower_outer pts = pts ! 0 - (pts ! 1 - pts ! 0) / 2"
  by (cases pts; cases "tl pts") (auto simp: lower_outer_def)

lemma upper_outer_nth:
  assumes "2 \<le> length pts"
  shows "upper_outer pts =
    pts ! (length pts - 1) + (pts ! (length pts - 1) - pts ! (length pts - 2)) / 2"
proof -
  from assms have ne: "pts \<noteq> []" and ne': "butlast pts \<noteq> []"
    by (auto simp: butlast_conv_take)
  have l: "last pts = pts ! (length pts - 1)"
    using ne by (simp add: last_conv_nth)
  have "last (butlast pts) = butlast pts ! (length (butlast pts) - 1)"
    using ne' by (simp add: last_conv_nth)
  also have "\<dots> = pts ! (length pts - 2)"
    using assms by (simp add: nth_butlast numeral_2_eq_2)
  finally show ?thesis using l by (simp add: upper_outer_def)
qed

lemma cell_boundaries_inner:
  assumes "0 < i" "i < length pts"
  shows "cell_boundaries pts ! i = (pts ! (i - 1) + pts ! i) / 2"
proof -
  from assms obtain j where j: "i = Suc j" by (cases i) auto
  with assms have "j < length (midpoints pts)" by (simp add: length_midpoints)
  then have "cell_boundaries pts ! i = midpoints pts ! j"
    by (simp add: cell_boundaries_def j nth_append)
  also have "\<dots> = (pts ! j + pts ! Suc j) / 2"
    using assms j by (simp add: midpoints_nth)
  finally show ?thesis by (simp add: j)
qed

lemma cell_boundaries_last:
  assumes "2 \<le> length pts"
  shows "cell_boundaries pts ! length pts = upper_outer pts"
proof -
  from assms obtain n where n: "length pts = Suc n" by (cases pts) auto
  then have "length (midpoints pts) = n" by (simp add: length_midpoints)
  then have "(midpoints pts @ [upper_outer pts]) ! n = upper_outer pts"
    by (metis nth_append_length)
  then show ?thesis by (simp add: cell_boundaries_def n)
qed

text \<open>
  The partition built this way is well formed: every sample lies strictly inside its
  own cell, and the boundaries are strictly increasing.
\<close>

lemma lower_outer_less:
  assumes "2 \<le> length pts" "strictly_increasing pts"
  shows "lower_outer pts < pts ! 0"
proof -
  have "pts ! 0 < pts ! Suc 0"
    using assms by (intro strictly_increasing_nth) auto
  then show ?thesis using lower_outer_nth [OF assms(1)] by simp
qed

lemma upper_outer_greater:
  assumes "2 \<le> length pts" "strictly_increasing pts"
  shows "pts ! (length pts - 1) < upper_outer pts"
proof -
  from assms(1) obtain k where k: "length pts = Suc (Suc k)"
    by (metis Suc_le_D numeral_2_eq_2 Suc_le_mono le_Suc_ex add_Suc add_Suc_right)
  have "pts ! k < pts ! Suc k"
    using assms(2) k by (intro strictly_increasing_nth) auto
  then show ?thesis using upper_outer_nth [OF assms(1)] by (simp add: k)
qed

lemma sample_inside_cell:
  assumes "2 \<le> length pts" "strictly_increasing pts" "i < length pts"
  shows "cell_boundaries pts ! i < pts ! i \<and> pts ! i < cell_boundaries pts ! Suc i"
proof
  show "cell_boundaries pts ! i < pts ! i"
  proof (cases i)
    case 0
    then show ?thesis
      using lower_outer_less [OF assms(1,2)] by (simp add: cell_boundaries_def)
  next
    case (Suc j)
    have "pts ! j < pts ! Suc j"
      using assms(2,3) Suc by (intro strictly_increasing_nth) auto
    then show ?thesis
      using cell_boundaries_inner [of i pts] assms(3) Suc by simp
  qed
  show "pts ! i < cell_boundaries pts ! Suc i"
  proof (cases "Suc i < length pts")
    case True
    have "pts ! i < pts ! Suc i"
      using assms(2) True by (intro strictly_increasing_nth) auto
    then show ?thesis
      using cell_boundaries_inner [of "Suc i" pts] True by simp
  next
    case False
    with assms(3) have e: "Suc i = length pts" by simp
    then have "i = length pts - 1" by simp
    then show ?thesis
      using upper_outer_greater [OF assms(1,2)] cell_boundaries_last [OF assms(1)] e
      by simp
  qed
qed

lemma strictly_increasing_from_nth:
  "(\<And>i. Suc i < length xs \<Longrightarrow> xs ! i < xs ! Suc i) \<Longrightarrow> strictly_increasing xs"
proof (induction xs rule: strictly_increasing.induct)
  case (1 x y zs)
  have "x < y" using "1.prems" [of 0] by simp
  moreover have "strictly_increasing (y # zs)"
  proof (rule "1.IH")
    fix i assume "Suc i < length (y # zs)"
    then show "(y # zs) ! i < (y # zs) ! Suc i"
      using "1.prems" [of "Suc i"] by simp
  qed
  ultimately show ?case by simp
qed auto

lemma cell_boundaries_increasing:
  assumes "2 \<le> length pts" "strictly_increasing pts"
  shows "strictly_increasing (cell_boundaries pts)"
proof (rule strictly_increasing_from_nth)
  fix i assume "Suc i < length (cell_boundaries pts)"
  then have "i < length pts" using length_cell_boundaries [OF assms(1)] by simp
  from sample_inside_cell [OF assms this]
  show "cell_boundaries pts ! i < cell_boundaries pts ! Suc i" by linarith
qed

text \<open>
  Claim C4. Building a non-uniform partition from fewer than 2 points or from a sequence
  that is not strictly increasing, such as \<open>[1.0, 0.5]\<close>, fails with \<open>InvalidRangeError\<close>.
  From every strictly increasing sequence of at least 2 points it succeeds: the samples
  are the points, there is one boundary more than there are points, each inner boundary
  is the midpoint of its two neighbouring samples, and each outer boundary lies half the
  adjacent spacing beyond the outermost sample.
\<close>

theorem nonuniform_partition_contract:
  "(length pts < 2 \<or> \<not> strictly_increasing pts \<longrightarrow>
      nonuniform_partition pts = Inl InvalidRangeError) \<and>
   nonuniform_partition [1, 1 / 2] = Inl InvalidRangeError \<and>
   (2 \<le> length pts \<and> strictly_increasing pts \<longrightarrow>
      (\<exists>bs. nonuniform_partition pts = Inr (Nonuniform_part pts bs) \<and>
         length bs = length pts + 1 \<and>
         bs ! 0 = pts ! 0 - (pts ! 1 - pts ! 0) / 2 \<and>
         (\<forall>i. 0 < i \<and> i < length pts \<longrightarrow> bs ! i = (pts ! (i - 1) + pts ! i) / 2) \<and>
         bs ! length pts =
           pts ! (length pts - 1) + (pts ! (length pts - 1) - pts ! (length pts - 2)) / 2))"
proof (intro conjI impI)
  assume "length pts < 2 \<or> \<not> strictly_increasing pts"
  then show "nonuniform_partition pts = Inl InvalidRangeError"
    by (auto simp: nonuniform_partition_def)
next
  show "nonuniform_partition [1, 1 / 2] = Inl InvalidRangeError"
    by (simp add: nonuniform_partition_def)
next
  assume ok: "2 \<le> length pts \<and> strictly_increasing pts"
  then have len: "2 \<le> length pts" and inc: "strictly_increasing pts" by simp_all
  have built: "nonuniform_partition pts = Inr (Nonuniform_part pts (cell_boundaries pts))"
    using len inc by (simp add: nonuniform_partition_def)
  have first: "cell_boundaries pts ! 0 = pts ! 0 - (pts ! 1 - pts ! 0) / 2"
    using lower_outer_nth [OF len] by (simp add: cell_boundaries_def)
  have inner: "\<forall>i. 0 < i \<and> i < length pts \<longrightarrow>
      cell_boundaries pts ! i = (pts ! (i - 1) + pts ! i) / 2"
    using cell_boundaries_inner by blast
  have final: "cell_boundaries pts ! length pts =
      pts ! (length pts - 1) + (pts ! (length pts - 1) - pts ! (length pts - 2)) / 2"
    using cell_boundaries_last [OF len] upper_outer_nth [OF len] by simp
  show "\<exists>bs. nonuniform_partition pts = Inr (Nonuniform_part pts bs) \<and>
         length bs = length pts + 1 \<and>
         bs ! 0 = pts ! 0 - (pts ! 1 - pts ! 0) / 2 \<and>
         (\<forall>i. 0 < i \<and> i < length pts \<longrightarrow> bs ! i = (pts ! (i - 1) + pts ! i) / 2) \<and>
         bs ! length pts =
           pts ! (length pts - 1) + (pts ! (length pts - 1) - pts ! (length pts - 2)) / 2"
    using built length_cell_boundaries [OF len] first inner final by blast
qed

theorem nonuniform_partition_contract_witness:
  "nonuniform_partition [3] = Inl InvalidRangeError \<and>
   nonuniform_partition [1, 1 / 2] = Inl InvalidRangeError \<and>
   (\<exists>bs. nonuniform_partition [1, 2, 4] = Inr (Nonuniform_part [1, 2, 4] bs) \<and>
      length bs = 4 \<and> bs ! 0 = 1 / 2 \<and> bs ! 3 = 5)"
  using nonuniform_partition_contract [of "[3]"]
    nonuniform_partition_contract [of "[1, 2, 4]"]
  by (auto simp: numeral_eq_Suc)

section \<open>Double precision: the rounding error\<close>

text \<open>
  Evaluating \<open>binary64\<close> on a numeral; the exponent of the binade brackets the number;
  rounding moves a number by at most half the spacing of its binade, which is at most
  \<open>2\<^sup>-\<^sup>5\<^sup>3\<close> times its size, or \<open>tiny\<close> among the subnormal numbers.
\<close>

lemma expo_dn_numeral:
  "expo_dn (numeral v) x = (if 1 \<le> x then 0 else expo_dn (pred_numeral v) (2 * x) - 1)"
  by (simp add: numeral_eq_Suc)

lemmas binary64_eval =
  binary64_def expo_def expo_dn_numeral expo_up.simps round_even_def Let_def

lemma round_even_error: "\<bar>of_int (round_even r) - r\<bar> \<le> 1 / 2"
proof -
  have "of_int \<lfloor>r\<rfloor> \<le> r" "r < of_int \<lfloor>r\<rfloor> + 1" by linarith+
  then show ?thesis by (auto simp: round_even_def Let_def)
qed

lemma expo_dn_lower:
  "0 < x \<Longrightarrow> 2 powi (expo_dn k x) \<le> x \<or> expo_dn k x = - int k"
proof (induction k arbitrary: x)
  case 0
  then show ?case by simp
next
  case (Suc k)
  show ?case
  proof (cases "1 \<le> x")
    case True
    then show ?thesis by simp
  next
    case False
    from Suc.prems have "0 < 2 * x" by simp
    from Suc.IH [OF this] show ?thesis
    proof
      assume "2 powi expo_dn k (2 * x) \<le> 2 * x"
      then have "2 powi (expo_dn k (2 * x) - 1) \<le> x"
        by (simp add: power_int_diff)
      with False show ?thesis by simp
    next
      assume "expo_dn k (2 * x) = - int k"
      with False show ?thesis by simp
    qed
  qed
qed

lemma expo_up_lower: "1 \<le> x \<Longrightarrow> 2 powi (expo_up x) \<le> x"
proof (induction x rule: expo_up.induct)
  case (1 x)
  show ?case
  proof (cases "x < 2")
    case True
    with "1.prems" show ?thesis by (simp add: expo_up.simps)
  next
    case False
    then have "1 \<le> x / 2" by simp
    from "1.IH" [OF False this] have "2 powi (expo_up (x / 2) + 1) \<le> x"
      by (simp add: power_int_add)
    with False show ?thesis by (subst expo_up.simps) simp
  qed
qed

lemma expo_up_upper: "1 \<le> x \<Longrightarrow> x < 2 powi (expo_up x + 1)"
proof (induction x rule: expo_up.induct)
  case (1 x)
  show ?case
  proof (cases "x < 2")
    case True
    with "1.prems" show ?thesis by (simp add: expo_up.simps)
  next
    case False
    then have "1 \<le> x / 2" by simp
    from "1.IH" [OF False this] have "x < 2 powi (expo_up (x / 2) + 1 + 1)"
      by (simp add: power_int_add)
    with False show ?thesis by (subst expo_up.simps) simp
  qed
qed

lemma expo_dn_upper: "0 < x \<Longrightarrow> x < 1 \<Longrightarrow> x < 2 powi (expo_dn k x + 1)"
proof (induction k arbitrary: x)
  case 0
  then show ?case by simp
next
  case (Suc k)
  show ?case
  proof (cases "2 * x < 1")
    case True
    with Suc.prems Suc.IH [of "2 * x"] have "2 * x < 2 powi (expo_dn k (2 * x) + 1)" by simp
    then have "x < 2 powi (expo_dn k (2 * x) - 1 + 1)" by (simp add: power_int_add)
    with Suc.prems show ?thesis by simp
  next
    case False
    then have "expo_dn k (2 * x) = 0" by (cases k) auto
    with Suc.prems show ?thesis by simp
  qed
qed

lemma expo_lower: "0 < x \<Longrightarrow> 2 powi (expo x) \<le> x \<or> expo x = - 1022"
  using expo_dn_lower [of x 1022] expo_up_lower [of x] by (auto simp: expo_def)

lemma expo_upper: "0 < x \<Longrightarrow> x < 2 powi (expo x + 1)"
  using expo_dn_upper [of x 1022] expo_up_upper [of x] by (auto simp: expo_def)

lemma tiny_bounds: "0 < tiny" "tiny \<le> 1 / 2 ^ 110"
  by (simp_all add: tiny_def)

lemma binary64_error: "\<bar>binary64 x - x\<bar> \<le> \<bar>x\<bar> / 2 ^ 53 + tiny"
proof (cases "x = 0")
  case True
  then show ?thesis using tiny_bounds(1) by (simp add: binary64_def)
next
  case False
  define q :: real where "q = 2 powi (expo \<bar>x\<bar> - 52)"
  have q: "0 < q" by (simp add: q_def)
  have "binary64 x - x = (of_int (round_even (x / q)) - x / q) * q"
    using False q by (simp add: binary64_def q_def [symmetric] Let_def algebra_simps)
  then have "\<bar>binary64 x - x\<bar> = \<bar>of_int (round_even (x / q)) - x / q\<bar> * q"
    using q by (simp add: abs_mult)
  also have "\<dots> \<le> (1 / 2) * q"
    using q round_even_error [of "x / q"] by (intro mult_right_mono) auto
  finally have half: "\<bar>binary64 x - x\<bar> \<le> q / 2" by simp
  have qe: "q / 2 = 2 powi (expo \<bar>x\<bar>) / 2 ^ 53"
    by (simp add: q_def power_int_diff)
  have nn: "0 \<le> \<bar>x\<bar> / 2 ^ 53" by simp
  from False have "0 < \<bar>x\<bar>" by simp
  from expo_lower [OF this] show ?thesis
  proof
    assume "2 powi expo \<bar>x\<bar> \<le> \<bar>x\<bar>"
    then have "q / 2 \<le> \<bar>x\<bar> / 2 ^ 53" by (simp add: qe divide_right_mono)
    with half tiny_bounds(1) show ?thesis by linarith
  next
    assume "expo \<bar>x\<bar> = - 1022"
    then have "q / 2 = tiny" by (simp add: qe power_int_minus_divide tiny_def)
    with half nn show ?thesis by linarith
  qed
qed

lemma binary64_pixel_size: "binary64 pixel_size = 3314649325744685 / 9007199254740992"
  by (simp add: pixel_size_def binary64_eval)

lemma binary64_det_shape_mm:
  "map binary64 det_shape_mm =
     [5049661082189169 / 17592186044416, 4661225614328463 / 17592186044416]"
  by (simp add: det_shape_mm_def binary64_eval)

lemma binary64_abs_le: "\<bar>binary64 x\<bar> \<le> 2 * \<bar>x\<bar> + 1"
proof -
  have "\<bar>x\<bar> / 2 ^ 53 \<le> \<bar>x\<bar>" by (simp add: field_simps)
  moreover have "tiny \<le> 1" using tiny_bounds(2) by simp
  ultimately show ?thesis using binary64_error [of x] by linarith
qed

lemma corner_gap:
  assumes "1 \<le> D" "\<bar>m\<bar> \<le> 2 ^ 50"
  shows "m < binary64 (m + D)"
proof -
  define r where "r = \<bar>m + D\<bar> / 2 ^ 53"
  have "\<bar>m + D\<bar> \<le> 2 ^ 50 + D" using assms by linarith
  then have "r \<le> (2 ^ 50 + D) / 2 ^ 53"
    unfolding r_def by (rule divide_right_mono) simp
  then have r: "r \<le> 1 / 8 + D / 2 ^ 53" by (simp add: add_divide_distrib)
  have "D / 2 ^ 53 \<le> D / 2" using assms(1) by (simp add: field_simps)
  with r have r': "r \<le> 1 / 8 + D / 2" by linarith
  have t: "tiny \<le> 1 / 8" using tiny_bounds(2) by simp
  have "m + D - (r + tiny) \<le> binary64 (m + D)"
    using binary64_error [of "m + D"] unfolding r_def by linarith
  with r' t assms(1) show ?thesis by linarith
qed

lemma extent_rounding:
  assumes "1 \<le> D"
  shows "\<bar>binary64 (binary64 (m + D) - m) - D\<bar> \<le> (\<bar>m\<bar> + D) / 2 ^ 51"
proof -
  define M where "M = binary64 (m + D)"
  define a where "a = \<bar>m\<bar> + D"
  have a: "1 \<le> a" "\<bar>m + D\<bar> \<le> a" using assms by (auto simp: a_def)
  have t: "0 < tiny" "tiny \<le> 1 / 2 ^ 110" by (rule tiny_bounds)+
  have e1: "\<bar>M - (m + D)\<bar> \<le> a / 2 ^ 53 + tiny"
  proof -
    have "\<bar>m + D\<bar> / 2 ^ 53 \<le> a / 2 ^ 53" using a(2) by (simp add: divide_right_mono)
    then show ?thesis using binary64_error [of "m + D"] by (simp add: M_def)
  qed
  have d: "\<bar>M - m\<bar> \<le> a + a / 2 ^ 53 + tiny"
    using e1 assms unfolding a_def by linarith
  have e2: "\<bar>binary64 (M - m) - (M - m)\<bar> \<le> (a + a / 2 ^ 53 + tiny) / 2 ^ 53 + tiny"
  proof -
    have "\<bar>M - m\<bar> / 2 ^ 53 \<le> (a + a / 2 ^ 53 + tiny) / 2 ^ 53"
      using d by (simp add: divide_right_mono)
    then show ?thesis using binary64_error [of "M - m"] by linarith
  qed
  have "\<bar>binary64 (M - m) - D\<bar> \<le> \<bar>binary64 (M - m) - (M - m)\<bar> + \<bar>M - (m + D)\<bar>"
    by linarith
  also have "\<dots> \<le> (a + a / 2 ^ 53 + tiny) / 2 ^ 53 + tiny + (a / 2 ^ 53 + tiny)"
    using e1 e2 by linarith
  also have "\<dots> \<le> a / 2 ^ 51"
  proof -
    define v where "v = a / 2 ^ 53"
    have v: "1 / 2 ^ 53 \<le> v" using a(1) by (simp add: v_def divide_right_mono)
    have s1: "(a + v + tiny) / 2 ^ 53 = v + v / 2 ^ 53 + tiny / 2 ^ 53"
      by (simp add: v_def add_divide_distrib)
    have s2: "v / 2 ^ 53 \<le> v" using v by (simp add: field_simps)
    have s3: "tiny / 2 ^ 53 \<le> tiny" using t(1) by (simp add: field_simps)
    have s4: "3 * tiny \<le> 1 / 2 ^ 53" using t(2) by simp
    have s5: "a / 2 ^ 51 = 4 * v" by (simp add: v_def)
    show ?thesis
      unfolding v_def [symmetric] s1 s5 using s2 s3 s4 v by linarith
  qed
  finally show ?thesis by (simp add: M_def a_def)
qed

text \<open>
  Every value of \<open>binary64\<close> is a multiple of the smallest subnormal number, so the rounded
  difference of two distinct doubles is not zero.
\<close>

lemma expo_dn_ge: "- int k \<le> expo_dn k x"
proof (induction k arbitrary: x)
  case 0
  then show ?case by simp
next
  case (Suc k)
  from Suc [of "2 * x"] show ?case by simp
qed

lemma expo_up_ge: "0 \<le> expo_up x"
proof (induction x rule: expo_up.induct)
  case (1 x)
  show ?case
  proof (cases "x < 2")
    case True
    then show ?thesis by (simp add: expo_up.simps)
  next
    case False
    with "1.IH" show ?thesis by (subst expo_up.simps) simp
  qed
qed

lemma expo_ge: "- 1022 \<le> expo x"
  using expo_dn_ge [of 1022 x] expo_up_ge [of x] by (auto simp: expo_def)

lemma binary64_grid: "\<exists>n::int. binary64 x = of_int n / 2 ^ 1074"
proof (cases "x = 0")
  case True
  then have "binary64 x = of_int 0 / 2 ^ 1074" by (simp add: binary64_def)
  then show ?thesis by blast
next
  case False
  define k where "k = nat (expo \<bar>x\<bar> + 1022)"
  have "expo \<bar>x\<bar> - 52 = int k - 1074"
    using expo_ge [of "\<bar>x\<bar>"] by (simp add: k_def)
  moreover have "(2::real) powi (int k - 1074) = 2 powi (int k) / 2 powi 1074"
    by (rule power_int_diff) simp
  ultimately have q: "(2::real) powi (expo \<bar>x\<bar> - 52) = 2 ^ k / 2 ^ 1074"
    by (simp only: power_int_of_nat power_int_numeral)
  define g :: real where "g = 2 ^ 1074"
  define r where "r = round_even (x / (2 ^ k / g))"
  have "binary64 x = of_int r * (2 ^ k / g)"
    using False unfolding binary64_def Let_def q r_def g_def by (simp only: if_False)
  also have "\<dots> = of_int (r * 2 ^ k) / g" by simp
  finally show ?thesis unfolding g_def by blast
qed

lemma round_even_pos: "1 / 2 < r \<Longrightarrow> 1 \<le> round_even r"
proof -
  assume r: "1 / 2 < r"
  then have f: "0 \<le> \<lfloor>r\<rfloor>" by simp
  show ?thesis
  proof (cases "\<lfloor>r\<rfloor> = 0")
    case True
    with r show ?thesis by (simp add: round_even_def Let_def)
  next
    case False
    with f have "1 \<le> \<lfloor>r\<rfloor>" by linarith
    then show ?thesis by (auto simp: round_even_def Let_def)
  qed
qed

lemma binary64_pos:
  assumes "1 / 2 ^ 1074 \<le> x"
  shows "0 < binary64 x"
proof -
  have "(0::real) < 1 / 2 ^ 1074" by simp
  with assms have x: "0 < x" by linarith
  define q :: real where "q = 2 powi (expo \<bar>x\<bar> - 52)"
  have q: "0 < q" by (simp add: q_def)
  have "0 < \<bar>x\<bar>" using x by simp
  from expo_lower [OF this] have "q < 2 * x"
  proof
    assume "2 powi expo \<bar>x\<bar> \<le> \<bar>x\<bar>"
    then have "q \<le> x / 2 ^ 52" using x by (simp add: q_def power_int_diff divide_right_mono)
    moreover have "x / 2 ^ 52 < 2 * x" using x by (simp add: field_simps)
    ultimately show ?thesis by linarith
  next
    assume "expo \<bar>x\<bar> = - 1022"
    then have "q = 1 / 2 ^ 1074" by (simp add: q_def power_int_minus_divide)
    with assms x show ?thesis by linarith
  qed
  then have "1 / 2 < x / q" using q by (simp add: field_simps)
  then have "1 \<le> round_even (x / q)" by (rule round_even_pos)
  then have "0 < of_int (round_even (x / q)) * q" using q by simp
  then show ?thesis using x by (simp add: binary64_def q_def Let_def)
qed

lemma binary64_difference_pos:
  assumes "binary64 a < binary64 b"
  shows "0 < binary64 (binary64 b - binary64 a)"
proof -
  obtain n m :: int where n: "binary64 a = of_int n / 2 ^ 1074"
    and m: "binary64 b = of_int m / 2 ^ 1074"
    using binary64_grid by blast
  from assms have "(of_int n :: real) < of_int m"
    unfolding n m by (simp add: divide_less_cancel)
  then have "n + 1 \<le> m" by simp
  then have "(of_int n :: real) + 1 \<le> of_int m" by (metis of_int_1 of_int_add of_int_le_iff)
  then have "1 / 2 ^ 1074 \<le> (of_int m - of_int n :: real) / 2 ^ 1074"
    by (intro divide_right_mono) auto
  then have "1 / 2 ^ 1074 \<le> binary64 b - binary64 a"
    unfolding n m by (simp add: diff_divide_distrib)
  then show ?thesis by (rule binary64_pos)
qed

section \<open>The Elekta Icon geometry\<close>

lemma uniform_partition_ok:
  "length mn = length mx \<Longrightarrow> length mn = length shp \<Longrightarrow> all_less mn mx \<Longrightarrow>
   list_all (\<lambda>n. 0 < n) shp \<Longrightarrow> uniform_partition mn mx shp = Inr (Uniform_part mn mx shp)"
  by (simp add: uniform_partition_def)

lemma uniform_partition_Inr:
  "uniform_partition mn mx shp = Inr p \<Longrightarrow> p = Uniform_part mn mx shp"
  by (auto simp: uniform_partition_def split: if_splits)

lemma two_elements: "length xs = 2 \<Longrightarrow> \<exists>a b. xs = [a, b]"
  by (cases xs; cases "tl xs") auto

lemma elekta_icon_geometry_exact:
  "elekta_icon_geometry sad sdd piercing_point angles detector_shape =
     (if \<not> 0 < sad then Inl AssertionError
      else if \<not> sad < sdd then Inl AssertionError
      else if length piercing_point \<noteq> 2 then Inl AssertionError
      else
        (case nonuniform_partition angles of
           Inl e \<Rightarrow> Inl e
         | Inr angle_partition \<Rightarrow>
             (let piercing_point_mm = map (\<lambda>c. pixel_size * c) piercing_point;
                  det_min_pt = map uminus piercing_point_mm;
                  det_max_pt = map2 (\<lambda>a b. a + b) det_min_pt det_shape_mm
              in case uniform_partition det_min_pt det_max_pt detector_shape of
                   Inl e \<Rightarrow> Inl e
                 | Inr detector_partition \<Rightarrow>
                     CircularConeFlatGeometry angle_partition detector_partition
                       sad (sdd - sad) [0, 0, 1])))"
  by (simp add: elekta_icon_geometry_def elekta_icon_geometry_in_def Let_def list.map_ident
      cong: sum.case_cong)

lemma elekta_icon_geometry_Inr:
  assumes "elekta_icon_geometry sad sdd pp angles shp = Inr g"
  shows "0 < sad \<and> sad < sdd \<and> length pp = 2 \<and>
    g = CircularConeFlat (Nonuniform_part angles (cell_boundaries angles))
          (Uniform_part [- (pixel_size * pp ! 0), - (pixel_size * pp ! 1)]
             [- (pixel_size * pp ! 0) + 287.04, - (pixel_size * pp ! 1) + 264.96] shp)
          sad (sdd - sad) [0, 0, 1]"
proof -
  from assms have a: "0 < sad" "sad < sdd" "length pp = 2"
    by (auto simp: elekta_icon_geometry_exact split: if_splits)
  from a(3) obtain x y where pp: "pp = [x, y]" using two_elements by blast
  from assms a show ?thesis
    by (auto simp: elekta_icon_geometry_exact pp det_shape_mm_def nonuniform_partition_def
        CircularConeFlatGeometry_def check_radii_def
        split: if_splits sum.splits option.splits dest!: uniform_partition_Inr)
qed

lemma elekta_icon_geometry_ok:
  assumes "0 < sad" "sad < sdd" "length pp = 2"
    "2 \<le> length angles" "strictly_increasing angles"
    "length shp = 2" "list_all (\<lambda>n. 0 < n) shp"
  shows "elekta_icon_geometry sad sdd pp angles shp =
    Inr (CircularConeFlat (Nonuniform_part angles (cell_boundaries angles))
          (Uniform_part [- (pixel_size * pp ! 0), - (pixel_size * pp ! 1)]
             [- (pixel_size * pp ! 0) + 287.04, - (pixel_size * pp ! 1) + 264.96] shp)
          sad (sdd - sad) [0, 0, 1])"
proof -
  from assms(3) obtain x y where pp: "pp = [x, y]" using two_elements by blast
  have u: "uniform_partition [- (pixel_size * x), - (pixel_size * y)]
             [- (pixel_size * x) + 287.04, - (pixel_size * y) + 264.96] shp =
           Inr (Uniform_part [- (pixel_size * x), - (pixel_size * y)]
             [- (pixel_size * x) + 287.04, - (pixel_size * y) + 264.96] shp)"
    using assms(6,7) by (intro uniform_partition_ok) auto
  show ?thesis
    using assms(1-5) u by (simp add: elekta_icon_geometry_exact pp det_shape_mm_def nonuniform_partition_def
        CircularConeFlatGeometry_def check_radii_def)
qed

text \<open>
  Claim C5, as the spec states it: calling \<^verbatim>\<open>elekta_icon_geometry\<close> with \<open>sad \<le> 0\<close> fails with
  an error of the \<open>InvalidGeometryError\<close> class that names the offending parameter. It does
  not: at \<open>sad = 0\<close> the first \<^verbatim>\<open>assert\<close> fails, and what is raised is an \<open>AssertionError\<close>
  with no message.
\<close>

theorem elekta_icon_geometry_assert_counterexample:
  "elekta_icon_geometry 0 1000 [390, 0] [1.2, 5.0] [780, 720] = Inl AssertionError \<and>
   \<not> fails_with_invalid_geometry
      (elekta_icon_geometry 0 1000 [390, 0] [1.2, 5.0] [780, 720])"
  by (simp add: elekta_icon_geometry_exact)

text \<open>
  Claim C5, amended. A divergent-beam geometry built with a source radius that is not
  positive fails at construction with an \<open>InvalidGeometryError\<close> naming \<open>src_radius\<close>.
  \<^verbatim>\<open>elekta_icon_geometry\<close> called with \<open>sad \<le> 0\<close>, with \<open>sdd \<le> sad\<close> or with a piercing point that
  has not exactly 2 entries fails at construction with an \<open>AssertionError\<close>, whatever the
  angles and the detector shape are: no partition and no geometry is built, so nothing
  is left to fail at apply time.
\<close>

theorem elekta_icon_geometry_fails_eagerly:
  "(src \<le> 0 \<longrightarrow>
      FanFlatGeometry ap dp src det = Inl (InvalidGeometryError ''src_radius'') \<and>
      CircularConeFlatGeometry ap dp src det ax = Inl (InvalidGeometryError ''src_radius'') \<and>
      HelicalConeFlatGeometry ap dp pitch src det =
        Inl (InvalidGeometryError ''src_radius'')) \<and>
   (sad \<le> 0 \<or> sdd \<le> sad \<or> length piercing_point \<noteq> 2 \<longrightarrow>
      elekta_icon_geometry sad sdd piercing_point angles detector_shape =
        Inl AssertionError)"
  by (auto simp: FanFlatGeometry_def CircularConeFlatGeometry_def
      HelicalConeFlatGeometry_def check_radii_def elekta_icon_geometry_exact)

theorem elekta_icon_geometry_fails_eagerly_witness:
  "CircularConeFlatGeometry (Nonuniform_part [1, 2] [1 / 2, 3 / 2, 5 / 2])
      (Uniform_part [0, 0] [1, 1] [4, 4]) 0 220 [0, 0, 1] =
     Inl (InvalidGeometryError ''src_radius'') \<and>
   elekta_icon_geometry 0 1000 [390, 0] [1.2, 5.0] [780, 720] = Inl AssertionError \<and>
   elekta_icon_geometry 780 780 [390, 0] [1.2, 5.0] [780, 720] = Inl AssertionError \<and>
   elekta_icon_geometry 780 1000 [390, 0, 0] [1.2, 5.0] [780, 720] = Inl AssertionError \<and>
   elekta_icon_geometry (- 1) 1000 [390, 0] [5.0, 1.2] [780, 720] = Inl AssertionError"
  using
    elekta_icon_geometry_fails_eagerly [of 0 "Nonuniform_part [1, 2] [1 / 2, 3 / 2, 5 / 2]"
      "Uniform_part [0, 0] [1, 1] [4, 4]" 220 "[0, 0, 1]" 1 0 1000 "[390, 0]"
      "[1.2, 5.0]" "[780, 720]"]
    elekta_icon_geometry_fails_eagerly [of 0 "Nonuniform_part [1, 2] [1 / 2, 3 / 2, 5 / 2]"
      "Uniform_part [0, 0] [1, 1] [4, 4]" 220 "[0, 0, 1]" 1 780 780 "[390, 0]"
      "[1.2, 5.0]" "[780, 720]"]
    elekta_icon_geometry_fails_eagerly [of 0 "Nonuniform_part [1, 2] [1 / 2, 3 / 2, 5 / 2]"
      "Uniform_part [0, 0] [1, 1] [4, 4]" 220 "[0, 0, 1]" 1 780 1000 "[390, 0, 0]"
      "[1.2, 5.0]" "[780, 720]"]
    elekta_icon_geometry_fails_eagerly [of 0 "Nonuniform_part [1, 2] [1 / 2, 3 / 2, 5 / 2]"
      "Uniform_part [0, 0] [1, 1] [4, 4]" 220 "[0, 0, 1]" 1 "- 1" 1000 "[390, 0]"
      "[5.0, 1.2]" "[780, 720]"]
  by simp

text \<open>
  Claim C6. For \<open>sdd > sad > 0\<close>, and the other arguments valid, \<^verbatim>\<open>elekta_icon_geometry\<close>
  returns the circular cone-beam geometry whose source radius is \<open>sad\<close> and whose detector
  radius is \<open>sdd - sad\<close>, the distance from the rotation axis to the detector, and not
  \<open>sdd\<close>; its axis is \<open>(0, 0, 1)\<close>.
\<close>

theorem elekta_icon_geometry_radii:
  assumes "0 < sad" "sad < sdd" "length piercing_point = 2"
    "2 \<le> length angles" "strictly_increasing angles"
    "length detector_shape = 2" "list_all (\<lambda>n. 0 < n) detector_shape"
  shows "\<exists>g. elekta_icon_geometry sad sdd piercing_point angles detector_shape = Inr g \<and>
    geom_src_radius g = Some sad \<and>
    geom_det_radius g = Some (sdd - sad) \<and>
    geom_det_radius g \<noteq> Some sdd \<and>
    (\<exists>ap dp. g = CircularConeFlat ap dp sad (sdd - sad) [0, 0, 1])"
  using assms(1) elekta_icon_geometry_ok [OF assms] by simp

theorem elekta_icon_geometry_radii_witness:
  "\<exists>g. elekta_icon_geometry 780 1000 [390, 0] [1.2, 5.0] [780, 720] = Inr g \<and>
     geom_src_radius g = Some 780 \<and> geom_det_radius g = Some 220"
  using elekta_icon_geometry_radii [of 780 1000 "[390, 0]" "[1.2, 5.0]" "[780, 720]"]
  by auto

section \<open>The detector partition of the Elekta Icon geometry\<close>

text \<open>
  In exact arithmetic the detector partition has extent \<open>(287.04, 264.96)\<close>, which is
  \<open>0.368\<close> times \<open>(780, 720)\<close>, whatever the piercing point and the detector shape are, and
  its minimum corner is at \<open>- 0.368 \<cdot> piercing_point\<close>.
\<close>

lemma elekta_icon_geometry_detector_extent_exact:
  assumes "0 < sad" "sad < sdd" "length piercing_point = 2"
    "2 \<le> length angles" "strictly_increasing angles"
    "length detector_shape = 2" "list_all (\<lambda>n. 0 < n) detector_shape"
  shows "\<exists>g. elekta_icon_geometry sad sdd piercing_point angles detector_shape = Inr g \<and>
    extent (geom_dpart g) = [287.04, 264.96] \<and>
    extent (geom_dpart g) = [0.368 * 780, 0.368 * 720] \<and>
    part_shape (geom_dpart g) = detector_shape \<and>
    part_min_pt (geom_dpart g) =
      [- (0.368 * piercing_point ! 0), - (0.368 * piercing_point ! 1)] \<and>
    map2 (\<lambda>origin lo. origin - lo) [0, 0] (part_min_pt (geom_dpart g)) =
      map (\<lambda>c. 0.368 * c) piercing_point"
proof -
  from assms(3) obtain x y where pp: "piercing_point = [x, y]"
    using two_elements by blast
  show ?thesis
    using elekta_icon_geometry_ok [OF assms]
    by (simp add: extent_def pixel_size_def pp)
qed

text \<open>
  The three guards in any arithmetic: the comparisons are made on the converted
  arguments.
\<close>

lemma elekta_icon_geometry_in_asserts:
  "fl sad \<le> 0 \<or> fl sdd \<le> fl sad \<or> length piercing_point \<noteq> 2 \<Longrightarrow>
   elekta_icon_geometry_in fl sad sdd piercing_point angles detector_shape =
     Inl AssertionError"
  by (auto simp: elekta_icon_geometry_in_def Let_def)

text \<open>
  The constants of the source as doubles, and the size of the minimum corner for a
  piercing point of at most \<open>2\<^sup>4\<^sup>0\<close> pixels.
\<close>

lemma binary64_287:
  "binary64 287.04 = 5049661082189169 / 17592186044416"
  "binary64 (7176 / 25) = 5049661082189169 / 17592186044416"
  by (simp_all add: binary64_eval)

lemma binary64_264:
  "binary64 264.96 = 4661225614328463 / 17592186044416"
  "binary64 (6624 / 25) = 4661225614328463 / 17592186044416"
  by (simp_all add: binary64_eval)

lemma min_corner_bound:
  assumes "\<bar>c\<bar> \<le> 2 ^ 40"
  shows "\<bar>- binary64 (binary64 pixel_size * binary64 c)\<bar> \<le> 2 ^ 50"
proof -
  have c: "\<bar>binary64 c\<bar> \<le> 2 ^ 41 + 1"
    using binary64_abs_le [of c] assms by simp
  have "\<bar>binary64 pixel_size * binary64 c\<bar> = binary64 pixel_size * \<bar>binary64 c\<bar>"
    by (simp add: binary64_pixel_size abs_mult)
  also have "\<dots> \<le> 1 * \<bar>binary64 c\<bar>"
    by (intro mult_right_mono) (simp_all add: binary64_pixel_size)
  finally have "\<bar>binary64 pixel_size * binary64 c\<bar> \<le> 2 ^ 41 + 1"
    using c by simp
  then show ?thesis
    using binary64_abs_le [of "binary64 pixel_size * binary64 c"] by simp
qed

text \<open>
  The geometry in double precision, for valid arguments. The maximum corner lies above
  the minimum corner, so the detector partition is built, and the detector radius, a
  rounded difference of two doubles, is positive.
\<close>

lemma elekta_icon_geometry_binary64_ok:
  assumes "0 < binary64 sad" "binary64 sad < binary64 sdd"
    "pp = [x, y]" "\<bar>x\<bar> \<le> 2 ^ 40" "\<bar>y\<bar> \<le> 2 ^ 40"
    "2 \<le> length angles" "strictly_increasing (map binary64 angles)"
    "length shp = 2" "list_all (\<lambda>n. 0 < n) shp"
  shows "elekta_icon_geometry_binary64 sad sdd pp angles shp =
    Inr (CircularConeFlat
          (Nonuniform_part (map binary64 angles) (cell_boundaries (map binary64 angles)))
          (Uniform_part
             [- binary64 (binary64 pixel_size * binary64 x),
              - binary64 (binary64 pixel_size * binary64 y)]
             [binary64 (- binary64 (binary64 pixel_size * binary64 x) + binary64 287.04),
              binary64 (- binary64 (binary64 pixel_size * binary64 y) + binary64 264.96)]
             shp)
          (binary64 sad) (binary64 (binary64 sdd - binary64 sad)) [0, 0, 1])"
proof -
  let ?mx = "- binary64 (binary64 pixel_size * binary64 x)"
  let ?my = "- binary64 (binary64 pixel_size * binary64 y)"
  have d: "(1::real) \<le> binary64 287.04" "(1::real) \<le> binary64 264.96"
    unfolding binary64_287 binary64_264 by simp_all
  have gx: "?mx < binary64 (?mx + binary64 287.04)"
    using d(1) min_corner_bound [OF assms(4)] by (rule corner_gap)
  have gy: "?my < binary64 (?my + binary64 264.96)"
    using d(2) min_corner_bound [OF assms(5)] by (rule corner_gap)
  have u: "uniform_partition [?mx, ?my]
             [binary64 (?mx + binary64 287.04), binary64 (?my + binary64 264.96)] shp =
           Inr (Uniform_part [?mx, ?my]
             [binary64 (?mx + binary64 287.04), binary64 (?my + binary64 264.96)] shp)"
    using assms(8,9) gx gy by (intro uniform_partition_ok) auto
  have n: "nonuniform_partition (map binary64 angles) =
      Inr (Nonuniform_part (map binary64 angles) (cell_boundaries (map binary64 angles)))"
    using assms(6,7) by (simp add: nonuniform_partition_def)
  have r: "0 < binary64 (binary64 sdd - binary64 sad)"
    using assms(2) by (rule binary64_difference_pos)
  show ?thesis
    using assms(1,2) r u
    by (simp add: elekta_icon_geometry_binary64_def elekta_icon_geometry_in_def
        assms(3) n det_shape_mm_def CircularConeFlatGeometry_def check_radii_def Let_def)
qed

text \<open>
  Claim C10, as the spec states it: the extent of the detector partition is exactly
  \<open>(287.04, 264.96)\<close> for every valid piercing point. It is not: at the piercing point
  \<open>(17, 17)\<close> the program's sum \<^verbatim>\<open>det_min_pt + det_shape_mm\<close> is rounded, and the extent is
  \<open>(287.03999999999996, 264.9599999999999)\<close>, each one spacing below the doubles
  \<open>287.04\<close> and \<open>264.96\<close>.
\<close>

theorem elekta_icon_geometry_rounded_extent_counterexample:
  "detector_extent (elekta_icon_geometry_binary64 780 1000 [17, 17] [1.2, 5.0] [780, 720]) =
     [315603817636823 / 1099511627776, 2330612807164231 / 8796093022208] \<and>
   [binary64 287.04, binary64 264.96] =
     [5049661082189169 / 17592186044416, 4661225614328463 / 17592186044416] \<and>
   detector_extent (elekta_icon_geometry_binary64 780 1000 [17, 17] [1.2, 5.0] [780, 720]) \<noteq>
     [binary64 287.04, binary64 264.96] \<and>
   detector_extent (elekta_icon_geometry_binary64 780 1000 [17, 17] [1.2, 5.0] [780, 720]) \<noteq>
     [287.04, 264.96]"
proof -
  have g: "elekta_icon_geometry_binary64 780 1000 [17, 17] [1.2, 5.0] [780, 720] =
    Inr (CircularConeFlat
          (Nonuniform_part (map binary64 [1.2, 5.0]) (cell_boundaries (map binary64 [1.2, 5.0])))
          (Uniform_part
             [- binary64 (binary64 pixel_size * binary64 17),
              - binary64 (binary64 pixel_size * binary64 17)]
             [binary64 (- binary64 (binary64 pixel_size * binary64 17) + binary64 287.04),
              binary64 (- binary64 (binary64 pixel_size * binary64 17) + binary64 264.96)]
             [780, 720])
          (binary64 780) (binary64 (binary64 1000 - binary64 780)) [0, 0, 1])"
    by (rule elekta_icon_geometry_binary64_ok) (simp_all add: binary64_eval)
  have m: "- binary64 (binary64 pixel_size * binary64 17) =
      - (220113431787733 / 35184372088832)"
    by (simp add: binary64_pixel_size) (simp add: binary64_eval)
  have e: "detector_extent (elekta_icon_geometry_binary64 780 1000 [17, 17] [1.2, 5.0] [780, 720]) =
     [315603817636823 / 1099511627776, 2330612807164231 / 8796093022208]"
    unfolding g by (simp add: extent_in_def m binary64_287 binary64_264) (simp add: binary64_eval)
  show ?thesis unfolding e by (simp add: binary64_287 binary64_264)
qed

text \<open>
  Claim C10, amended. For valid arguments, the piercing point at most \<open>2\<^sup>4\<^sup>0\<close> pixels
  from the origin, the program builds the detector partition with the requested shape,
  the minimum corner \<open>- (0.368 \<cdot> piercing_point)\<close> and the maximum corner
  \<open>minimum + (287.04, 264.96)\<close>, each operation rounded to double precision. Its extent is
  a function of the piercing point alone, not of the detector shape, and it is
  \<open>(287.04, 264.96)\<close> up to rounding: on each axis it differs from the double \<open>287.04\<close>,
  respectively \<open>264.96\<close>, by at most \<open>2\<^sup>-\<^sup>5\<^sup>1\<close> times the sum of that number and the size of
  the minimum corner.
\<close>

theorem elekta_icon_geometry_rounded_extent:
  assumes "0 < binary64 sad" "binary64 sad < binary64 sdd"
    "length piercing_point = 2" "list_all (\<lambda>c. \<bar>c\<bar> \<le> 2 ^ 40) piercing_point"
    "2 \<le> length angles" "strictly_increasing (map binary64 angles)"
    "length detector_shape = 2" "list_all (\<lambda>n. 0 < n) detector_shape"
  shows "\<exists>g. elekta_icon_geometry_binary64 sad sdd piercing_point angles detector_shape =
        Inr g \<and>
    part_shape (geom_dpart g) = detector_shape \<and>
    part_min_pt (geom_dpart g) =
      map (\<lambda>c. - binary64 (binary64 0.368 * binary64 c)) piercing_point \<and>
    part_max_pt (geom_dpart g) =
      map2 (\<lambda>lo d. binary64 (lo + binary64 d)) (part_min_pt (geom_dpart g))
        [287.04, 264.96] \<and>
    detector_extent (Inr g) =
      map2 (\<lambda>lo d. binary64 (binary64 (lo + binary64 d) - lo)) (part_min_pt (geom_dpart g))
        [287.04, 264.96] \<and>
    \<bar>detector_extent (Inr g) ! 0 - binary64 287.04\<bar> \<le>
      (\<bar>part_min_pt (geom_dpart g) ! 0\<bar> + binary64 287.04) / 2 ^ 51 \<and>
    \<bar>detector_extent (Inr g) ! 1 - binary64 264.96\<bar> \<le>
      (\<bar>part_min_pt (geom_dpart g) ! 1\<bar> + binary64 264.96) / 2 ^ 51"
proof -
  from assms(3) obtain x y where pp: "piercing_point = [x, y]"
    using two_elements by blast
  with assms(4) have b: "\<bar>x\<bar> \<le> 2 ^ 40" "\<bar>y\<bar> \<le> 2 ^ 40" by simp_all
  let ?mx = "- binary64 (binary64 pixel_size * binary64 x)"
  let ?my = "- binary64 (binary64 pixel_size * binary64 y)"
  have d: "(1::real) \<le> binary64 287.04" "(1::real) \<le> binary64 264.96"
    unfolding binary64_287 binary64_264 by simp_all
  have ex: "\<bar>binary64 (binary64 (?mx + binary64 287.04) - ?mx) - binary64 287.04\<bar> \<le>
      (\<bar>?mx\<bar> + binary64 287.04) / 2 ^ 51"
    using d(1) by (rule extent_rounding)
  have ey: "\<bar>binary64 (binary64 (?my + binary64 264.96) - ?my) - binary64 264.96\<bar> \<le>
      (\<bar>?my\<bar> + binary64 264.96) / 2 ^ 51"
    using d(2) by (rule extent_rounding)
  note g = elekta_icon_geometry_binary64_ok [OF assms(1,2) pp b assms(5-8)]
  show ?thesis
    unfolding g using ex ey by (simp add: pp extent_in_def pixel_size_def)
qed

theorem elekta_icon_geometry_rounded_extent_witness:
  "\<exists>g. elekta_icon_geometry_binary64 780 1000 [390, 0] [1.2, 5.0] [390, 360] = Inr g \<and>
     part_shape (geom_dpart g) = [390, 360] \<and>
     part_min_pt (geom_dpart g) = [- binary64 (binary64 0.368 * binary64 390), 0] \<and>
     \<bar>detector_extent (Inr g) ! 0 - binary64 287.04\<bar> \<le>
       (\<bar>part_min_pt (geom_dpart g) ! 0\<bar> + binary64 287.04) / 2 ^ 51"
proof -
  have "\<exists>g. elekta_icon_geometry_binary64 780 1000 [390, 0] [1.2, 5.0] [390, 360] = Inr g \<and>
    part_shape (geom_dpart g) = [390, 360] \<and>
    part_min_pt (geom_dpart g) =
      map (\<lambda>c. - binary64 (binary64 0.368 * binary64 c)) [390, 0] \<and>
    part_max_pt (geom_dpart g) =
      map2 (\<lambda>lo d. binary64 (lo + binary64 d)) (part_min_pt (geom_dpart g))
        [287.04, 264.96] \<and>
    detector_extent (Inr g) =
      map2 (\<lambda>lo d. binary64 (binary64 (lo + binary64 d) - lo)) (part_min_pt (geom_dpart g))
        [287.04, 264.96] \<and>
    \<bar>detector_extent (Inr g) ! 0 - binary64 287.04\<bar> \<le>
      (\<bar>part_min_pt (geom_dpart g) ! 0\<bar> + binary64 287.04) / 2 ^ 51 \<and>
    \<bar>detector_extent (Inr g) ! 1 - binary64 264.96\<bar> \<le>
      (\<bar>part_min_pt (geom_dpart g) ! 1\<bar> + binary64 264.96) / 2 ^ 51"
    by (rule elekta_icon_geometry_rounded_extent) (simp_all add: binary64_eval)
  then obtain g where
    "elekta_icon_geometry_binary64 780 1000 [390, 0] [1.2, 5.0] [390, 360] = Inr g"
    "part_shape (geom_dpart g) = [390, 360]"
    "part_min_pt (geom_dpart g) =
      map (\<lambda>c. - binary64 (binary64 0.368 * binary64 c)) [390, 0]"
    "\<bar>detector_extent (Inr g) ! 0 - binary64 287.04\<bar> \<le>
      (\<bar>part_min_pt (geom_dpart g) ! 0\<bar> + binary64 287.04) / 2 ^ 51"
    by blast
  moreover have "binary64 (binary64 0.368 * binary64 0) = 0"
    by (simp add: binary64_def)
  ultimately show ?thesis by (intro exI [of _ g]) simp
qed

text \<open>At the default piercing point \<open>(390, 0)\<close> nothing is lost to rounding.\<close>

lemma default_extent_exact:
  "detector_extent (elekta_icon_geometry_binary64 780 1000 [390, 0] [1.2, 5.0] [780, 720]) =
     [binary64 287.04, binary64 264.96]"
proof -
  have g: "elekta_icon_geometry_binary64 780 1000 [390, 0] [1.2, 5.0] [780, 720] =
    Inr (CircularConeFlat
          (Nonuniform_part (map binary64 [1.2, 5.0]) (cell_boundaries (map binary64 [1.2, 5.0])))
          (Uniform_part
             [- binary64 (binary64 pixel_size * binary64 390),
              - binary64 (binary64 pixel_size * binary64 0)]
             [binary64 (- binary64 (binary64 pixel_size * binary64 390) + binary64 287.04),
              binary64 (- binary64 (binary64 pixel_size * binary64 0) + binary64 264.96)]
             [780, 720])
          (binary64 780) (binary64 (binary64 1000 - binary64 780)) [0, 0, 1])"
    by (rule elekta_icon_geometry_binary64_ok) (simp_all add: binary64_eval)
  have m: "- binary64 (binary64 pixel_size * binary64 390) =
      - (5049661082189169 / 35184372088832)"
    by (simp add: binary64_pixel_size) (simp add: binary64_eval)
  have z: "binary64 (binary64 pixel_size * binary64 0) = 0" by (simp add: binary64_def)
  show ?thesis
    unfolding g by (simp add: extent_in_def m z binary64_287 binary64_264) (simp add: binary64_eval)
qed

section \<open>The Elekta Icon space\<close>

lemma uniform_discr_Inr:
  "uniform_discr mn mx shp dt = Inr s \<Longrightarrow>
   s = \<lparr>partition = Uniform_part mn mx shp, dtype = dt\<rparr>"
  by (auto simp: uniform_discr_def split: sum.splits dest: uniform_partition_Inr)

text \<open>
  Claim C9. \<^verbatim>\<open>elekta_icon_space\<close> returns what \<^verbatim>\<open>uniform_discr\<close> returns for the corners
  \<open>(-112, -112, 0)\<close> and \<open>(112, 112, 224)\<close>, the given shape and the element type
  \<open>float32\<close>, for every shape and every keyword arguments: two calls that differ in the
  keyword arguments only return the same. A space it returns has these corners, this
  shape and this element type, and it returns a space for every shape of 3 positive
  counts.
\<close>

theorem elekta_icon_space_ignores_kwargs:
  "elekta_icon_space shp kwargs = uniform_discr [-112, -112, 0] [112, 112, 224] shp Float32 \<and>
   elekta_icon_space shp kwargs = elekta_icon_space shp kwargs' \<and>
   (\<forall>s. elekta_icon_space shp kwargs = Inr s \<longrightarrow>
      part_min_pt (partition s) = [-112, -112, 0] \<and>
      part_max_pt (partition s) = [112, 112, 224] \<and>
      part_shape (partition s) = shp \<and>
      dtype s = Float32) \<and>
   (length shp = 3 \<and> list_all (\<lambda>n. 0 < n) shp \<longrightarrow>
      (\<exists>s. elekta_icon_space shp kwargs = Inr s))"
  by (auto simp: elekta_icon_space_def uniform_partition_ok
      dest!: uniform_discr_Inr) (simp add: uniform_discr_def uniform_partition_ok)

theorem elekta_icon_space_ignores_kwargs_witness:
  "elekta_icon_space [448, 448, 448] [(''impl'', ''numpy'')] =
     Inr \<lparr>partition = Uniform_part [-112, -112, 0] [112, 112, 224] [448, 448, 448],
          dtype = Float32\<rparr> \<and>
   elekta_icon_space [448, 448, 448] [(''impl'', ''numpy'')] =
     elekta_icon_space [448, 448, 448] [(''dtype'', ''float64'')]"
  using elekta_icon_space_ignores_kwargs
    [of "[448, 448, 448]" "[(''impl'', ''numpy'')]" "[(''dtype'', ''float64'')]"]
  by (simp add: elekta_icon_space_def uniform_discr_def uniform_partition_def)

section \<open>The Elekta Icon reconstruction\<close>

text \<open>
  Claim C8. \<^verbatim>\<open>elekta_icon_reconstruction\<close> builds the filtered backprojection of the ray
  transform with no padding, the filter window \<open>Hann\<close> and the frequency scaling \<open>0.6\<close>.
  With \<^verbatim>\<open>parker_weighting\<close> false it returns that operator as it is, and the Parker
  weighting is not consulted. With \<^verbatim>\<open>parker_weighting\<close> true it returns the operator that
  first applies the Parker weighting to the projection data and then the filtered
  backprojection. A failure of either builder is the result of the call.
\<close>

theorem elekta_icon_reconstruction_composite:
  "elekta_icon_reconstruction fbp_op parker rt False = fbp_op rt False ''Hann'' 0.6 \<and>
   elekta_icon_reconstruction fbp_op parker rt False =
     elekta_icon_reconstruction fbp_op parker' rt False \<and>
   (\<forall>e. fbp_op rt False ''Hann'' 0.6 = Inl e \<longrightarrow>
      elekta_icon_reconstruction fbp_op parker rt True = Inl e) \<and>
   (\<forall>F e. fbp_op rt False ''Hann'' 0.6 = Inr F \<and> parker rt = Inl e \<longrightarrow>
      elekta_icon_reconstruction fbp_op parker rt True = Inl e) \<and>
   (\<forall>F W. fbp_op rt False ''Hann'' 0.6 = Inr F \<and> parker rt = Inr W \<longrightarrow>
      (\<exists>R. elekta_icon_reconstruction fbp_op parker rt True = Inr R \<and>
           (\<forall>y. R y = F (W y))))"
  by (auto simp: elekta_icon_reconstruction_def operator_mul_def split: sum.splits)

theorem elekta_icon_reconstruction_composite_witness:
  "(\<exists>F. elekta_icon_reconstruction scaling_fbp halving (par2d_anisotropic Astra_cuda) False =
      Inr F \<and> F [10, 20] = [6, 12]) \<and>
   (\<exists>R. elekta_icon_reconstruction scaling_fbp halving (par2d_anisotropic Astra_cuda) True =
      Inr R \<and> R [10, 20] = [3, 6])"
  using elekta_icon_reconstruction_composite
    [of scaling_fbp halving "par2d_anisotropic Astra_cuda" halving]
  by (auto simp: scaling_fbp_def halving_def)

section \<open>Ray transforms over complex spaces\<close>

lemma map_Re_Complex: "length a = length b \<Longrightarrow> map Re (map2 Complex a b) = a"
  by (induction a b rule: list_induct2) auto

lemma map_Im_Complex: "length a = length b \<Longrightarrow> map Im (map2 Complex a b) = b"
  by (induction a b rule: list_induct2) auto

lemma split_call_Complex:
  assumes "length a = length b"
  shows "split_call f (map2 Complex a b) =
    (case f a of
       Inl e \<Rightarrow> Inl e
     | Inr re \<Rightarrow>
         (case f b of
            Inl e \<Rightarrow> Inl e
          | Inr im \<Rightarrow> Inr (Complex_elem (map2 Complex re im))))"
  unfolding split_call_def map_Re_Complex [OF assms] map_Im_Complex [OF assms] ..

lemma supported_real_space:
  "supported (rt\<lparr>domain := real_space (domain rt)\<rparr>) = supported rt"
  by (simp add: supported_def real_space_def)

lemma call_real_real_space:
  "call_real fwd (rt\<lparr>domain := real_space (domain rt)\<rparr>) = call_real fwd rt"
  by (rule ext) (simp add: call_real_def supported_real_space, simp add: real_space_def)

lemma adjoint_real_real_space:
  "adjoint_real bwd (rt\<lparr>domain := real_space (domain rt)\<rparr>) = adjoint_real bwd rt"
  by (rule ext) (simp add: adjoint_real_def supported_real_space, simp add: real_space_def)

lemma is_real_real_dtype: "is_real_dtype (real_dtype dt)"
  by (cases dt) auto

lemma dispatch_split:
  assumes "\<not> is_real_dtype (dtype (domain rt))" "length a = length b"
  shows "dispatch f rt (Complex_elem (map2 Complex a b)) =
    recombine (dispatch f (rt\<lparr>domain := real_space (domain rt)\<rparr>) (Real_elem a))
      (dispatch f (rt\<lparr>domain := real_space (domain rt)\<rparr>) (Real_elem b))"
  using assms(1)
  by (simp add: dispatch_def split_call_Complex [OF assms(2)]
      real_space_def is_real_real_dtype split: sum.splits)

text \<open>
  Claim C2. Over a complex domain, the ray transform applied to the volume
  \<open>x_re + i \<cdot> x_im\<close> is the real transform, over the paired real space, applied to \<open>x_re\<close>
  and to \<open>x_im\<close>, recombined as \<open>re + i \<cdot> im\<close>; the same holds for the adjoint. Numbers
  are real numbers here, so the equation is exact.
\<close>

theorem complex_decomposition:
  assumes "\<not> is_real_dtype (dtype (domain rt))" "length x_re = length x_im"
  shows "rt_apply fwd rt (Complex_elem (map2 Complex x_re x_im)) =
      recombine (rt_apply fwd (rt\<lparr>domain := real_space (domain rt)\<rparr>) (Real_elem x_re))
        (rt_apply fwd (rt\<lparr>domain := real_space (domain rt)\<rparr>) (Real_elem x_im)) \<and>
    rt_adjoint bwd rt (Complex_elem (map2 Complex x_re x_im)) =
      recombine (rt_adjoint bwd (rt\<lparr>domain := real_space (domain rt)\<rparr>) (Real_elem x_re))
        (rt_adjoint bwd (rt\<lparr>domain := real_space (domain rt)\<rparr>) (Real_elem x_im))"
  using dispatch_split [OF assms]
  by (simp add: rt_apply_def rt_adjoint_def call_real_real_space adjoint_real_real_space)

theorem complex_decomposition_witness:
  "rt_apply doubling par2d_complex
     (Complex_elem [Complex 1 0, Complex 2 1, Complex 3 0, Complex 4 1]) =
   Inr (Complex_elem [Complex 2 0, Complex 4 2, Complex 6 0, Complex 8 2]) \<and>
   rt_apply doubling (par2d_complex\<lparr>domain := real_space (domain par2d_complex)\<rparr>)
     (Real_elem [1, 2, 3, 4]) = Inr (Real_elem [2, 4, 6, 8]) \<and>
   rt_apply doubling (par2d_complex\<lparr>domain := real_space (domain par2d_complex)\<rparr>)
     (Real_elem [0, 1, 0, 1]) = Inr (Real_elem [0, 2, 0, 2])"
  using complex_decomposition
    [of par2d_complex "[1, 2, 3, 4]" "[0, 1, 0, 1]" doubling doubling]
  by (simp add: par2d_complex_def doubling_def rt_apply_def dispatch_def call_real_def
      supported_def cell_sides_def extent_def elem_count_def real_space_def)

section \<open>Unsupported combinations\<close>

lemma dispatch_unsupported:
  assumes "\<And>x. length x = n \<Longrightarrow> f x = Inl NotImplementedError"
    "elem_is_real v = is_real_dtype (dtype (domain rt))" "elem_size v = n"
  shows "dispatch f rt v = Inl NotImplementedError"
  using assms by (cases v) (auto simp: dispatch_def split_call_def)

lemma dispatch_isl:
  assumes "\<And>x. isl (f x)"
  shows "isl (dispatch f rt v)"
proof (cases v)
  case (Real_elem x)
  with assms [of x] show ?thesis by (auto simp: dispatch_def split: sum.splits)
next
  case (Complex_elem z)
  with assms [of "map Re z"] show ?thesis
    by (auto simp: dispatch_def split_call_def split: sum.splits)
qed

text \<open>
  Claim C7. Over an unsupported combination of geometry, dimension and backend, the
  forward call on an element of the domain and the adjoint call on an element of the
  range both fail with \<open>NotImplementedError\<close>, and no call returns data. A 2D geometry over
  voxels of unequal sides on the CPU backend is such a combination. The failure is at
  the call: the operator itself is constructed whenever the dimensions match.
\<close>

theorem unsupported_fails_at_apply:
  "(\<not> supported rt \<and> in_domain rt v \<and> in_range rt w \<longrightarrow>
      rt_apply fwd rt v = Inl NotImplementedError \<and>
      rt_adjoint bwd rt w = Inl NotImplementedError) \<and>
   (\<not> supported rt \<longrightarrow> isl (rt_apply fwd rt v) \<and> isl (rt_adjoint bwd rt w)) \<and>
   (geom_ndim (geometry rt) = 2 \<and> impl rt = Astra_cpu \<and>
      \<not> isotropic (cell_sides (partition (domain rt))) \<longrightarrow> \<not> supported rt) \<and>
   (length (part_shape (partition (domain rt))) = geom_ndim (geometry rt) \<longrightarrow>
      RayTransform (domain rt) (geometry rt) (impl rt) = Inr rt)"
proof (intro conjI impI)
  assume a: "\<not> supported rt \<and> in_domain rt v \<and> in_range rt w"
  then show "rt_apply fwd rt v = Inl NotImplementedError"
    unfolding rt_apply_def
    by (intro dispatch_unsupported [where n = "elem_count (partition (domain rt))"])
      (auto simp: call_real_def in_domain_def)
  from a show "rt_adjoint bwd rt w = Inl NotImplementedError"
    unfolding rt_adjoint_def
    by (intro dispatch_unsupported [where n = "range_count (geometry rt)"])
      (auto simp: adjoint_real_def in_range_def)
next
  assume "\<not> supported rt"
  then show "isl (rt_apply fwd rt v)" "isl (rt_adjoint bwd rt w)"
    unfolding rt_apply_def rt_adjoint_def
    by (auto intro!: dispatch_isl simp: call_real_def adjoint_real_def)
next
  assume "geom_ndim (geometry rt) = 2 \<and> impl rt = Astra_cpu \<and>
      \<not> isotropic (cell_sides (partition (domain rt)))"
  then show "\<not> supported rt" by (simp add: supported_def)
next
  assume "length (part_shape (partition (domain rt))) = geom_ndim (geometry rt)"
  then show "RayTransform (domain rt) (geometry rt) (impl rt) = Inr rt"
    by (simp add: RayTransform_def)
qed

theorem unsupported_fails_at_apply_witness:
  "\<not> supported (par2d_anisotropic Astra_cpu) \<and>
   rt_apply doubling (par2d_anisotropic Astra_cpu) (Real_elem (replicate 50 1)) =
     Inl NotImplementedError \<and>
   rt_adjoint doubling (par2d_anisotropic Astra_cpu) (Real_elem (replicate 10000 1)) =
     Inl NotImplementedError \<and>
   RayTransform (domain (par2d_anisotropic Astra_cpu)) (geometry (par2d_anisotropic Astra_cpu))
     Astra_cpu = Inr (par2d_anisotropic Astra_cpu)"
  using unsupported_fails_at_apply
    [of "par2d_anisotropic Astra_cpu" "Real_elem (replicate 50 1)"
      "Real_elem (replicate 10000 1)" doubling doubling]
  by (simp add: par2d_anisotropic_def supported_def cell_sides_def extent_def
      in_domain_def in_range_def elem_count_def range_count_def)

end
